theory Spec2Isabelle
  imports Main "HOL-Library.Char_ord" "HOL-Library.List_Lexorder"
begin

section \<open>Values and objects\<close>

text \<open>
  A field of a draft, of an updates fragment or of a stored row is a string or
  \<open>null\<close>/\<open>undefined\<close>: \<open>None\<close> stands for both, as every test of the source
  (\<open>v == null\<close>, \<open>!v\<close>, \<open>v || null\<close>) treats them alike.
\<close>

type_synonym jsval = "string option"

text \<open>JavaScript truthiness of such a value: \<open>null\<close> and the empty string are falsy.\<close>

definition truthy :: "jsval \<Rightarrow> bool" where
  "truthy v = (case v of None \<Rightarrow> False | Some s \<Rightarrow> s \<noteq> [])"

text \<open>
  A plain object: its own enumerable properties in insertion order, as
  \<open>Object.entries\<close> lists them.
\<close>

type_synonym obj = "(string \<times> jsval) list"

section \<open>Strings and numbers\<close>

text \<open>
  Strings are lists of code units below 256. \<open>isSpace\<close> is the white space and
  line terminator set of \<open>String.prototype.trim\<close> and of the regular expression
  class \<open>\s\<close> in that range; \<open>isDigit\<close> is the class \<open>\d\<close>.
\<close>

definition isSpace :: "char \<Rightarrow> bool" where
  "isSpace c = (c \<in> set [CHR 0x09, CHR 0x0A, CHR 0x0B, CHR 0x0C, CHR 0x0D, CHR 0x20, CHR 0xA0])"

definition isDigit :: "char \<Rightarrow> bool" where
  "isDigit c = (c \<in> set ''0123456789'')"

definition trim :: "string \<Rightarrow> string" where
  "trim s = rev (dropWhile isSpace (rev (dropWhile isSpace s)))"

text \<open>\<open>toLowerCase\<close> on the three letters the time pattern admits.\<close>

definition toLowerCase :: "string \<Rightarrow> string" where
  "toLowerCase s =
     map (\<lambda>c. if c = CHR ''A'' then CHR ''a'' else if c = CHR ''M'' then CHR ''m''
               else if c = CHR ''P'' then CHR ''p'' else c) s"

text \<open>\<open>s.split(':')\<close>: the components between the separators, at least one.\<close>

fun split :: "char \<Rightarrow> string \<Rightarrow> string list" where
  "split sep [] = [] # []"
| "split sep (c # cs) =
     (if c = sep then [] # split sep cs
      else (case split sep cs of [] \<Rightarrow> [c] # [] | x # xs \<Rightarrow> (c # x) # xs))"

text \<open>The value of a digit is its code unit minus that of \<open>0\<close>.\<close>

definition digitVal :: "char \<Rightarrow> nat" where
  "digitVal c = of_char c - 48"

definition decimal :: "string \<Rightarrow> nat" where
  "decimal s = foldl (\<lambda>acc c. acc * 10 + digitVal c) 0 s"

text \<open>
  \<open>Number(s)\<close> on a string, \<open>None\<close> for \<open>NaN\<close>: the empty string is 0 and a
  string of decimal digits is its value. Every string the program converts is a
  component of a time written by \<open>normalizeTime\<close> or a group matched by \<open>\d\<close>, so a
  digit string; any other string is read as \<open>NaN\<close> here.
\<close>

definition Number :: "string \<Rightarrow> int option" where
  "Number s = (if list_all isDigit s then Some (int (decimal s)) else None)"

text \<open>\<open>String(n)\<close> of a non-negative integer.\<close>

definition digitChar :: "nat \<Rightarrow> char" where
  "digitChar n = ''0123456789'' ! (n mod 10)"

fun String_nat :: "nat \<Rightarrow> string" where
  "String_nat n =
     (if n < 10 then [digitChar n] else String_nat (n div 10) @ [digitChar (n mod 10)])"

declare String_nat.simps [simp del]

text \<open>\<open>String(n).padStart(2, '0')\<close>.\<close>

definition padStart2 :: "string \<Rightarrow> string" where
  "padStart2 s = replicate (2 - length s) (CHR ''0'') @ s"

text \<open>Comparison of numbers: false as soon as one side is \<open>NaN\<close>.\<close>

definition js_less :: "int option \<Rightarrow> int option \<Rightarrow> bool" where
  "js_less a b = (case (a, b) of (Some x, Some y) \<Rightarrow> x < y | _ \<Rightarrow> False)"

section \<open>Time utilities\<close>

text \<open>The pattern \<open>/^(\d{1,2}):(\d{2})$/\<close>: the two groups of a match.\<close>

definition matchHHMM :: "string \<Rightarrow> (string \<times> string) option" where
  "matchHHMM s =
     (let h = takeWhile isDigit s; r = dropWhile isDigit s
      in if length h = 1 \<or> length h = 2 then
           (case r of
              [c, a, b] \<Rightarrow>
                if c = CHR '':'' \<and> isDigit a \<and> isDigit b then Some (h, [a, b]) else None
            | _ \<Rightarrow> None)
         else None)"

text \<open>
  The pattern \<open>/^(\d{1,2})(?::(\d{2}))?\s*(am|pm)$/i\<close>: the three groups of a match,
  the second absent when the minutes are.
\<close>

definition matchAmPm :: "string \<Rightarrow> (string \<times> string option \<times> string) option" where
  "matchAmPm s =
     (let h = takeWhile isDigit s; r = dropWhile isDigit s
      in if length h = 1 \<or> length h = 2 then
           (let (mm, r') =
                  (case r of
                     c # a # b # r' \<Rightarrow>
                       if c = CHR '':'' \<and> isDigit a \<and> isDigit b then (Some [a, b], r')
                       else (None, r)
                   | _ \<Rightarrow> (None, r));
                p = dropWhile isSpace r'
            in if toLowerCase p = ''am'' \<or> toLowerCase p = ''pm'' then Some (h, mm, p)
               else None)
         else None)"

definition hhmm :: "int \<Rightarrow> int \<Rightarrow> string" where
  "hhmm hh mm =
     padStart2 (String_nat (nat hh)) @ '':'' @ padStart2 (String_nat (nat mm))"

text \<open>\<open>normalizeTime\<close> of the first variant of the program (with the timetable).\<close>

definition normalizeTime :: "string \<Rightarrow> string option" where
  "normalizeTime t =
     (if t = [] then None
      else
        let timeStr = map (\<lambda>c. if c = CHR ''.'' then CHR '':'' else c) (trim t);
            first =
              (case matchHHMM timeStr of
                 Some (m1, m2) \<Rightarrow>
                   (case (Number m1, Number m2) of
                      (Some hh, Some mm) \<Rightarrow>
                        if hh \<ge> 0 \<and> hh \<le> 23 \<and> mm \<ge> 0 \<and> mm \<le> 59 then Some (hhmm hh mm)
                        else None
                    | _ \<Rightarrow> None)
               | None \<Rightarrow> None)
        in case first of
             Some r \<Rightarrow> Some r
           | None \<Rightarrow>
               (case matchAmPm timeStr of
                  Some (m1, m2, m3) \<Rightarrow>
                    (case (Number m1, (case m2 of Some x \<Rightarrow> Number x | None \<Rightarrow> Some 0)) of
                       (Some hh0, Some mm) \<Rightarrow>
                         let period = toLowerCase m3;
                             hh1 = (if period = ''pm'' \<and> hh0 \<noteq> 12 then hh0 + 12 else hh0);
                             hh = (if period = ''am'' \<and> hh1 = 12 then 0 else hh1)
                         in if hh \<ge> 0 \<and> hh \<le> 23 \<and> mm \<ge> 0 \<and> mm \<le> 59
                            then Some (hhmm hh mm) else None
                     | _ \<Rightarrow> None)
                | None \<Rightarrow> None))"


text \<open>\<open>timeToMinutes\<close>: \<open>h * 60 + m\<close> of the first two components.\<close>

definition timeToMinutes :: "string \<Rightarrow> int option" where
  "timeToMinutes time =
     (case map Number (split (CHR '':'') time) of
        Some h # Some m # _ \<Rightarrow> Some (h * 60 + m)
      | _ \<Rightarrow> None)"

section \<open>Draft session state\<close>

datatype draft_state = collecting | awaiting_confirm

record draftObj =
  draft_id :: string
  draft :: obj
  state :: draft_state
  draft_updatedAt :: int
  overwriteNext :: bool

record session =
  drafts :: "draftObj list"
  updatedAt :: int
  editingEventId :: "nat option"
  editingField :: "string option"
  addingClass :: bool

type_synonym sessions = "int \<Rightarrow> session option"

definition DRAFT_TTL_MS :: int where
  "DRAFT_TTL_MS = 90 * 1000"

definition CONFIRM_TTL_MS :: int where
  "CONFIRM_TTL_MS = 5 * 60 * 1000"

text \<open>\<open>getSession\<close>: the session of a chat, created empty on first contact.\<close>

definition newSession :: "int \<Rightarrow> session" where
  "newSession now =
     \<lparr>drafts = [], updatedAt = now, editingEventId = None, editingField = None,
      addingClass = False\<rparr>"

definition getSession :: "int \<Rightarrow> int \<Rightarrow> sessions \<Rightarrow> session \<times> sessions" where
  "getSession now chatId ss =
     (case ss chatId of
        Some s \<Rightarrow> (s, ss)
      | None \<Rightarrow> (newSession now, ss(chatId \<mapsto> newSession now)))"

text \<open>The filter predicate of \<open>pruneExpiredDrafts\<close>: the draft is kept.\<close>

definition keepDraft :: "int \<Rightarrow> draftObj \<Rightarrow> bool" where
  "keepDraft t d =
     (let ttl = (if state d = awaiting_confirm then CONFIRM_TTL_MS else DRAFT_TTL_MS)
      in t - draft_updatedAt d \<le> ttl)"

text \<open>
  The body of the loop of \<open>pruneExpiredDrafts\<close> for one entry of the map:
  \<open>None\<close> is \<open>sessions.delete(chatId)\<close>.
\<close>

definition pruneSession :: "int \<Rightarrow> session \<Rightarrow> session option" where
  "pruneSession t s =
     (let s' = s\<lparr>drafts := filter (keepDraft t) (drafts s)\<rparr>
      in if length (drafts s') = 0 \<and> t - updatedAt s' > DRAFT_TTL_MS then None
         else Some s')"

definition pruneExpiredDrafts :: "int \<Rightarrow> sessions \<Rightarrow> sessions" where
  "pruneExpiredDrafts t ss =
     (\<lambda>chatId. case ss chatId of None \<Rightarrow> None | Some s \<Rightarrow> pruneSession t s)"

text \<open>The drafts a chat holds: none when it has no session.\<close>

definition draftsOf :: "sessions \<Rightarrow> int \<Rightarrow> draftObj list" where
  "draftsOf ss chatId = (case ss chatId of None \<Rightarrow> [] | Some s \<Rightarrow> drafts s)"

section \<open>Objects\<close>

text \<open>
  The names \<open>k in o\<close> finds on every plain object although they are not its own:
  the members of \<open>Object.prototype\<close>.
\<close>

definition objectPrototypeKeys :: "string list" where
  "objectPrototypeKeys =
     [''constructor'', ''__defineGetter__'', ''__defineSetter__'', ''hasOwnProperty'',
      ''__lookupGetter__'', ''__lookupSetter__'', ''isPrototypeOf'',
      ''propertyIsEnumerable'', ''toString'', ''valueOf'', ''__proto__'',
      ''toLocaleString'']"

definition ownKeys :: "obj \<Rightarrow> string list" where
  "ownKeys d = map fst d"

text \<open>\<open>k in d\<close>: an own or an inherited property.\<close>

definition hasProperty :: "string \<Rightarrow> obj \<Rightarrow> bool" where
  "hasProperty k d = (k \<in> set (ownKeys d) \<or> k \<in> set objectPrototypeKeys)"

text \<open>
  \<open>d[k]\<close> for a name that is not a member of \<open>Object.prototype\<close>: the own
  property, \<open>undefined\<close> when there is none.
\<close>

definition getProp :: "obj \<Rightarrow> string \<Rightarrow> jsval" where
  "getProp d k = (case map_of d k of Some v \<Rightarrow> v | None \<Rightarrow> None)"

text \<open>
  \<open>!!d[k]\<close> for any name: an inherited member is a function or an object, which
  is truthy.
\<close>

definition propTruthy :: "obj \<Rightarrow> string \<Rightarrow> bool" where
  "propTruthy d k =
     (case map_of d k of Some v \<Rightarrow> truthy v | None \<Rightarrow> k \<in> set objectPrototypeKeys)"

fun setOwn :: "obj \<Rightarrow> string \<Rightarrow> jsval \<Rightarrow> obj" where
  "setOwn [] k v = [(k, v)]"
| "setOwn ((k', v') # ps) k v =
     (if k' = k then (k, v) # ps else (k', v') # setOwn ps k v)"

text \<open>
  \<open>d[k] = v\<close> for a string \<open>v\<close>: an own property is overwritten in place, any other
  name becomes a new own property at the end, except \<open>__proto__\<close>, whose inherited
  setter ignores a value that is not an object.
\<close>

definition assign :: "obj \<Rightarrow> string \<Rightarrow> jsval \<Rightarrow> obj" where
  "assign d k v =
     (if k \<in> set (ownKeys d) then setOwn d k v
      else if k = ''__proto__'' then d
      else setOwn d k v)"

section \<open>Drafts\<close>

definition makeEmptyDraft :: obj where
  "makeEmptyDraft =
     [(''task'', None), (''date'', None), (''start_time'', None), (''end_time'', None),
      (''location'', None), (''type'', None)]"

definition draftIsCompleteEnough :: "obj \<Rightarrow> bool" where
  "draftIsCompleteEnough d = (truthy (getProp d ''task'') \<and> truthy (getProp d ''date''))"

text \<open>\<open>currentDraft?.k\<close>: \<open>undefined\<close> when there is no current draft.\<close>

definition optProp :: "obj option \<Rightarrow> string \<Rightarrow> jsval" where
  "optProp d k = (case d of None \<Rightarrow> None | Some ob \<Rightarrow> getProp ob k)"

definition shouldStartNewDraftFromUpdate :: "obj option \<Rightarrow> obj \<Rightarrow> bool \<Rightarrow> bool" where
  "shouldStartNewDraftFromUpdate currentDraft updates overwriteIntent =
     (if overwriteIntent then False
      else
        let newDate = getProp updates ''date'';
            hasDateAlready = truthy (optProp currentDraft ''date'');
            hasOtherInfo =
              (truthy (optProp currentDraft ''task'')
               \<or> truthy (optProp currentDraft ''start_time'')
               \<or> truthy (optProp currentDraft ''location''))
        in if truthy newDate \<and> hasDateAlready \<and> hasOtherInfo
              \<and> newDate \<noteq> optProp currentDraft ''date''
           then True
           else if truthy (getProp updates ''task'') \<and> truthy (optProp currentDraft ''task'')
                   \<and> truthy (optProp currentDraft ''date'')
                   \<and> getProp updates ''task'' \<noteq> optProp currentDraft ''task''
           then True
           else False)"

text \<open>
  One iteration of the loop of \<open>mergeDraft\<close> over \<open>Object.entries(updates)\<close>, for
  the entry \<open>(k, v)\<close>.
\<close>

definition mergeStep :: "bool \<Rightarrow> obj \<Rightarrow> string \<times> jsval \<Rightarrow> obj" where
  "mergeStep allowOverwrite d e =
     (case e of (k, v) \<Rightarrow>
        if v = None then d
        else if \<not> hasProperty k d then d
        else if \<not> propTruthy d k then assign d k v
        else if allowOverwrite then assign d k v
        else d)"

definition mergeDraft :: "obj \<Rightarrow> obj \<Rightarrow> bool \<Rightarrow> bool \<Rightarrow> obj" where
  "mergeDraft d updates overwriteIntent overwriteNextFlag =
     (let allowOverwrite = (overwriteIntent \<or> overwriteNextFlag)
      in foldl (mergeStep allowOverwrite) d updates)"

section \<open>The draft merge path of the message handler\<close>

fun findIndex :: "('a \<Rightarrow> bool) \<Rightarrow> 'a list \<Rightarrow> nat option" where
  "findIndex P [] = None"
| "findIndex P (x # xs) = (if P x then Some 0 else map_option Suc (findIndex P xs))"

text \<open>
  \<open>[...session.drafts].reverse().find(d => d.state === 'collecting')\<close>: the position
  in \<open>session.drafts\<close> of the object found, which the handler then mutates in place.
\<close>

definition activeDraftIndex :: "draftObj list \<Rightarrow> nat option" where
  "activeDraftIndex ds =
     map_option (\<lambda>j. length ds - 1 - j) (findIndex (\<lambda>d. state d = collecting) (rev ds))"

definition newDraftObj :: "int \<Rightarrow> draftObj" where
  "newDraftObj now =
     \<lparr>draft_id = String_nat (nat now), draft = makeEmptyDraft, state = collecting,
      draft_updatedAt = now, overwriteNext = False\<rparr>"

datatype reply =
    AskConfirm string
  | DraftUpdated "string list"

text \<open>
  The handler from \<open>// Partial updates: merge into draft\<close> to its end, at clock
  reading \<open>now\<close>: the session after it, the position of the draft it merged into,
  and the message it sends.
\<close>

definition mergeIntoDraft :: "int \<Rightarrow> obj \<Rightarrow> bool \<Rightarrow> session \<Rightarrow> session \<times> nat \<times> reply" where
  "mergeIntoDraft now updates overwriteIntent s =
     (let (ds1, i1) =
            (case activeDraftIndex (drafts s) of
               Some i \<Rightarrow> (drafts s, i)
             | None \<Rightarrow> (drafts s @ [newDraftObj now], length (drafts s)));
          (ds2, i2) =
            (if shouldStartNewDraftFromUpdate (Some (draft (ds1 ! i1))) updates overwriteIntent
             then (ds1 @ [newDraftObj now], length ds1)
             else (ds1, i1));
          o0 = ds2 ! i2;
          o1 = o0\<lparr>draft := mergeDraft (draft o0) updates overwriteIntent (overwriteNext o0),
                  overwriteNext := False, draft_updatedAt := now\<rparr>
      in if draftIsCompleteEnough (draft o1)
         then (s\<lparr>drafts := ds2[i2 := o1\<lparr>state := awaiting_confirm, draft_updatedAt := now\<rparr>]\<rparr>,
               i2, AskConfirm (draft_id o1))
         else (s\<lparr>drafts := ds2[i2 := o1]\<rparr>, i2,
               DraftUpdated
                 ((if \<not> truthy (getProp (draft o1) ''task'') then [''title''] else [])
                  @ (if \<not> truthy (getProp (draft o1) ''date'') then [''date''] else []))))"

section \<open>Stored rows and the runtime\<close>

record event =
  e_id :: nat
  e_chat_id :: int
  e_task :: string
  e_date :: string
  e_start_time :: jsval
  e_end_time :: jsval
  e_location :: jsval
  e_type :: jsval

record timetableEntry =
  t_id :: nat
  t_chat_id :: int
  t_subject :: string
  t_day_of_week :: nat
  t_start_time :: string
  t_end_time :: string
  t_location :: jsval

text \<open>
  The tables \<open>events\<close> and \<open>school_timetable\<close> in row order, and the
  \<open>AUTOINCREMENT\<close> counter of \<open>events\<close>.
\<close>

record database =
  events :: "event list"
  events_seq :: nat
  school_timetable :: "timetableEntry list"

text \<open>
  What the program asks of \<open>Date\<close>: \<open>getDay\<close> is \<open>new Date(dateStr).getDay()\<close>
  (\<open>None\<close> for \<open>NaN\<close>), \<open>getTime\<close> is \<open>new Date(s).getTime()\<close> of a string without
  a zone, read as local time (\<open>None\<close> for an invalid date), and \<open>clock i\<close> is the
  reading \<open>new Date()\<close> in iteration \<open>i\<close> of the loop of \<open>scheduleReminder\<close>.
\<close>

record runtime =
  getDay :: "jsval \<Rightarrow> nat option"
  getTime :: "string \<Rightarrow> int option"
  clock :: "nat \<Rightarrow> int"

section \<open>Conflict detection\<close>

datatype source = source_event | source_school_timetable

record conflict =
  c_id :: nat
  c_task :: string
  c_date :: jsval
  c_start_time :: jsval
  c_end_time :: jsval
  c_location :: jsval
  c_type :: jsval
  c_source :: source

definition getSchoolTimetableForDate ::
    "runtime \<Rightarrow> database \<Rightarrow> int \<Rightarrow> jsval \<Rightarrow> timetableEntry list" where
  "getSchoolTimetableForDate rt db chatId dateStr =
     (let dayOfWeek = getDay rt dateStr
      in sort_key t_start_time
           (filter (\<lambda>r. t_chat_id r = chatId \<and> Some (t_day_of_week r) = dayOfWeek)
              (school_timetable db)))"

text \<open>\<open>{...event, source: 'event'}\<close>, the columns a reader of a conflict uses.\<close>

definition conflictOfEvent :: "event \<Rightarrow> conflict" where
  "conflictOfEvent e =
     \<lparr>c_id = e_id e, c_task = e_task e, c_date = Some (e_date e),
      c_start_time = e_start_time e, c_end_time = e_end_time e,
      c_location = e_location e, c_type = e_type e, c_source = source_event\<rparr>"

definition conflictOfEntry :: "jsval \<Rightarrow> timetableEntry \<Rightarrow> conflict" where
  "conflictOfEntry date r =
     \<lparr>c_id = t_id r, c_task = t_subject r, c_date = date,
      c_start_time = Some (t_start_time r), c_end_time = Some (t_end_time r),
      c_location = t_location r, c_type = Some ''class'',
      c_source = source_school_timetable\<rparr>"

text \<open>
  The two loop conditions of \<open>checkConflicts\<close>. The query has left no event whose
  \<open>start_time\<close> is \<open>NULL\<close>.
\<close>

definition eventOverlaps :: "int option \<Rightarrow> int option \<Rightarrow> event \<Rightarrow> bool" where
  "eventOverlaps newStart newEnd e =
     (let eventStart = (case e_start_time e of Some s \<Rightarrow> timeToMinutes s | None \<Rightarrow> None);
          eventEnd =
            (case e_end_time e of
               Some t \<Rightarrow> if t \<noteq> [] then timeToMinutes t else map_option (\<lambda>x. x + 60) eventStart
             | None \<Rightarrow> map_option (\<lambda>x. x + 60) eventStart)
      in js_less newStart eventEnd \<and> js_less eventStart newEnd)"

definition entryOverlaps :: "int option \<Rightarrow> int option \<Rightarrow> timetableEntry \<Rightarrow> bool" where
  "entryOverlaps newStart newEnd r =
     (let entryStart = timeToMinutes (t_start_time r);
          entryEnd = timeToMinutes (t_end_time r)
      in js_less newStart entryEnd \<and> js_less entryStart newEnd)"

definition checkConflicts ::
    "runtime \<Rightarrow> database \<Rightarrow> int \<Rightarrow> jsval \<Rightarrow> jsval \<Rightarrow> jsval \<Rightarrow> conflict list" where
  "checkConflicts rt db chatId date startTime endTime =
     (case startTime of
        None \<Rightarrow> []
      | Some st \<Rightarrow>
          if st = [] then []
          else
            let evs = filter (\<lambda>e. e_chat_id e = chatId \<and> Some (e_date e) = date
                                  \<and> e_start_time e \<noteq> None) (events db);
                schoolEntries = getSchoolTimetableForDate rt db chatId date;
                newStart = timeToMinutes st;
                newEnd =
                  (case endTime of
                     Some en \<Rightarrow>
                       if en \<noteq> [] then timeToMinutes en else map_option (\<lambda>x. x + 60) newStart
                   | None \<Rightarrow> map_option (\<lambda>x. x + 60) newStart)
            in map conflictOfEvent (filter (eventOverlaps newStart newEnd) evs)
               @ map (conflictOfEntry date) (filter (entryOverlaps newStart newEnd) schoolEntries))"

section \<open>Reminders\<close>

text \<open>A scheduled job: when it fires, and the chat and lead-time label of its message.\<close>

record job =
  job_time :: int
  job_chat :: int
  job_label :: string

type_synonym jobs = "string \<Rightarrow> job option"

definition reminderOffsets :: "(nat \<times> string) list" where
  "reminderOffsets = [(24 * 60, ''1 day''), (6 * 60, ''6 hours''), (30, ''30 minutes'')]"

definition jobKey :: "nat \<Rightarrow> nat \<Rightarrow> string" where
  "jobKey eventId minutes = String_nat eventId @ ''-'' @ String_nat minutes"

text \<open>The loop of \<open>scheduleReminder\<close> from iteration \<open>i\<close> on.\<close>

fun scheduleLoop ::
    "runtime \<Rightarrow> int \<Rightarrow> event \<Rightarrow> int option \<Rightarrow> nat \<Rightarrow> (nat \<times> string) list \<Rightarrow> jobs \<Rightarrow> jobs" where
  "scheduleLoop rt chatId ev eventDateTime i [] js = js"
| "scheduleLoop rt chatId ev eventDateTime i ((minutes, label) # rest) js =
     (let reminderTime = map_option (\<lambda>t. t - int minutes * 60 * 1000) eventDateTime
      in scheduleLoop rt chatId ev eventDateTime (Suc i) rest
           (case reminderTime of
              None \<Rightarrow> js
            | Some r \<Rightarrow>
                if r > clock rt i
                then js(jobKey (e_id ev) minutes \<mapsto>
                          \<lparr>job_time = r, job_chat = chatId, job_label = label\<rparr>)
                else js))"

definition scheduleReminder :: "runtime \<Rightarrow> int \<Rightarrow> event \<Rightarrow> jobs \<Rightarrow> jobs" where
  "scheduleReminder rt chatId ev js =
     (case e_start_time ev of
        None \<Rightarrow> js
      | Some st \<Rightarrow>
          if st = [] then js
          else scheduleLoop rt chatId ev (getTime rt (e_date ev @ ''T'' @ st @ '':00'')) 0
                 reminderOffsets js)"

definition cancelReminder :: "nat \<Rightarrow> jobs \<Rightarrow> jobs" where
  "cancelReminder eventId js =
     foldl (\<lambda>m offset. m(jobKey eventId offset := None)) js [24 * 60, 6 * 60, 30]"

section \<open>The store and the draft buttons\<close>

record world =
  w_sessions :: sessions
  w_db :: database
  w_jobs :: jobs

datatype db_error = NotNullConstraint

text \<open>\<open>v || null\<close>.\<close>

definition orNull :: "jsval \<Rightarrow> jsval" where
  "orNull v = (if truthy v then v else None)"

text \<open>
  \<open>addEventToDB\<close>: the insert fails when \<open>task\<close> or \<open>date\<close> is \<open>null\<close> (both columns
  are \<open>NOT NULL\<close>); otherwise the row gets the next id and its reminders are scheduled.
\<close>

definition addEventToDB :: "runtime \<Rightarrow> int \<Rightarrow> obj \<Rightarrow> world \<Rightarrow> db_error + (event \<times> world)" where
  "addEventToDB rt chatId ev w =
     (case (getProp ev ''task'', getProp ev ''date'') of
        (Some task, Some date) \<Rightarrow>
          let newEvent =
                \<lparr>e_id = Suc (events_seq (w_db w)), e_chat_id = chatId, e_task = task,
                 e_date = date, e_start_time = orNull (getProp ev ''start_time''),
                 e_end_time = orNull (getProp ev ''end_time''),
                 e_location = orNull (getProp ev ''location''),
                 e_type = orNull (getProp ev ''type'')\<rparr>
          in Inr (newEvent,
                  w\<lparr>w_db := (w_db w)\<lparr>events := events (w_db w) @ [newEvent],
                                      events_seq := Suc (events_seq (w_db w))\<rparr>,
                    w_jobs := scheduleReminder rt chatId newEvent (w_jobs w)\<rparr>)
      | _ \<Rightarrow> Inl NotNullConstraint)"

definition deleteEvent :: "int \<Rightarrow> nat \<Rightarrow> world \<Rightarrow> world" where
  "deleteEvent chatId eventId w =
     w\<lparr>w_db := (w_db w)\<lparr>events :=
                  filter (\<lambda>e. \<not> (e_id e = eventId \<and> e_chat_id e = chatId)) (events (w_db w))\<rparr>,
       w_jobs := cancelReminder eventId (w_jobs w)\<rparr>"

datatype action =
    confirm | edit | discard | conflict_keep | conflict_replace | conflict_cancel

datatype outcome =
    DraftExpired
  | NeedTitleAndDate
  | ConflictDetected "conflict list"
  | Saved event
  | SendCorrection
  | Discarded
  | SavedKeptBoth event
  | ReplacedAndSaved nat event
  | Cancelled
  | ErrorTryAgain

definition setSession :: "int \<Rightarrow> session \<Rightarrow> world \<Rightarrow> world" where
  "setSession chatId s w = w\<lparr>w_sessions := (w_sessions w)(chatId \<mapsto> s)\<rparr>"

definition removeDraft :: "string \<Rightarrow> session \<Rightarrow> session" where
  "removeDraft draftId s = s\<lparr>drafts := filter (\<lambda>d. draft_id d \<noteq> draftId) (drafts s)\<rparr>"

definition draftConflicts :: "runtime \<Rightarrow> int \<Rightarrow> obj \<Rightarrow> world \<Rightarrow> conflict list" where
  "draftConflicts rt chatId d w =
     checkConflicts rt (w_db w) chatId (getProp d ''date'') (getProp d ''start_time'')
       (getProp d ''end_time'')"

text \<open>
  The \<open>callback_query\<close> handler for the six draft buttons, at clock reading \<open>now\<close>:
  \<open>getSession\<close>, then \<open>getDraftOrExpire\<close> (the position of the draft found, so that
  the branches can mutate it in place), then the branch of the action. An insert
  that throws leaves what was done before it and ends in the handler's \<open>catch\<close>.
\<close>

definition draftButton ::
    "runtime \<Rightarrow> int \<Rightarrow> int \<Rightarrow> action \<Rightarrow> string \<Rightarrow> world \<Rightarrow> outcome \<times> world" where
  "draftButton rt now chatId act draftId w0 =
     (let (s, ss) = getSession now chatId (w_sessions w0);
          w = w0\<lparr>w_sessions := ss\<rparr>
      in case findIndex (\<lambda>x. draft_id x = draftId) (drafts s) of
           None \<Rightarrow> (DraftExpired, w)
         | Some i \<Rightarrow>
             let draftObj = drafts s ! i
             in (case act of
                   confirm \<Rightarrow>
                     if \<not> draftIsCompleteEnough (draft draftObj) then (NeedTitleAndDate, w)
                     else
                       let conflicts = draftConflicts rt chatId (draft draftObj) w
                       in if length conflicts > 0 then (ConflictDetected conflicts, w)
                          else (case addEventToDB rt chatId (draft draftObj) w of
                                  Inl err \<Rightarrow> (ErrorTryAgain, w)
                                | Inr (saved, w') \<Rightarrow>
                                    (Saved saved, setSession chatId (removeDraft draftId s) w'))
                 | edit \<Rightarrow>
                     (SendCorrection,
                      setSession chatId
                        (s\<lparr>drafts := (drafts s)[i := draftObj\<lparr>overwriteNext := True,
                                          state := collecting, draft_updatedAt := now\<rparr>]\<rparr>) w)
                 | discard \<Rightarrow> (Discarded, setSession chatId (removeDraft draftId s) w)
                 | conflict_keep \<Rightarrow>
                     (case addEventToDB rt chatId (draft draftObj) w of
                        Inl err \<Rightarrow> (ErrorTryAgain, w)
                      | Inr (saved, w') \<Rightarrow>
                          (SavedKeptBoth saved, setSession chatId (removeDraft draftId s) w'))
                 | conflict_replace \<Rightarrow>
                     let conflicts = draftConflicts rt chatId (draft draftObj) w;
                         w1 = foldl (\<lambda>v c. deleteEvent chatId (c_id c) v) w conflicts
                     in (case addEventToDB rt chatId (draft draftObj) w1 of
                           Inl err \<Rightarrow> (ErrorTryAgain, w1)
                         | Inr (saved, w') \<Rightarrow>
                             (ReplacedAndSaved (length conflicts) saved,
                              setSession chatId (removeDraft draftId s) w'))
                 | conflict_cancel \<Rightarrow>
                     (Cancelled,
                      setSession chatId
                        (s\<lparr>drafts := (drafts s)[i := draftObj\<lparr>state := awaiting_confirm,
                                          draft_updatedAt := now\<rparr>]\<rparr>) w)))"

section \<open>Example inputs\<close>

definition idleDrafts :: "draftObj list" where
  "idleDrafts =
     [\<lparr>draft_id = ''1'', draft = makeEmptyDraft, state = collecting, draft_updatedAt = 0,
       overwriteNext = False\<rparr>,
      \<lparr>draft_id = ''2'', draft = makeEmptyDraft, state = awaiting_confirm,
       draft_updatedAt = 0, overwriteNext = False\<rparr>]"

text \<open>
  Chat 7 holds a collecting and an awaiting draft, chat 8 is editing the title of
  event 5, chat 9 is entering a class; all were last touched at time 0.
\<close>

definition idleSessions :: sessions where
  "idleSessions =
     [7 \<mapsto> \<lparr>drafts = idleDrafts, updatedAt = 0, editingEventId = None,
              editingField = None, addingClass = False\<rparr>,
      8 \<mapsto> \<lparr>drafts = [], updatedAt = 0, editingEventId = Some 5,
              editingField = Some ''title'', addingClass = False\<rparr>,
      9 \<mapsto> \<lparr>drafts = [], updatedAt = 0, editingEventId = None,
              editingField = None, addingClass = True\<rparr>]"

text \<open>Chat 8 is editing the title of event 5 and was last active at 60 seconds.\<close>

definition activeSessions :: sessions where
  "activeSessions =
     [8 \<mapsto> \<lparr>drafts = [], updatedAt = 60000, editingEventId = Some 5,
              editingField = Some ''title'', addingClass = False\<rparr>]"


text \<open>A sequence of merges with neither \<open>overwrite_intent\<close> nor \<open>overwriteNext\<close>.\<close>

definition mergeSequence :: "obj \<Rightarrow> obj list \<Rightarrow> obj" where
  "mergeSequence d us = foldl (\<lambda>a u. mergeDraft a u False False) d us"

definition gymDraft :: obj where
  "gymDraft =
     [(''task'', Some ''Gym''), (''date'', Some ''2025-03-01''), (''start_time'', None),
      (''end_time'', None), (''location'', None), (''type'', None)]"


text \<open>A fragment with everything but a date, and one with a title and a date only.\<close>

definition timedUpdate :: obj where
  "timedUpdate =
     [(''task'', Some ''Gym''), (''date'', None), (''start_time'', Some ''18:00''),
      (''end_time'', Some ''19:00''), (''location'', Some ''Hall''), (''type'', Some ''sports'')]"

definition datedUpdate :: obj where
  "datedUpdate =
     [(''task'', Some ''Gym''), (''date'', Some ''2025-03-01''), (''start_time'', None),
      (''end_time'', None), (''location'', None), (''type'', None)]"

text \<open>The session of a first message at time 1000 carrying each of the two.\<close>

definition timedSession :: session where
  "timedSession =
     \<lparr>drafts = [\<lparr>draft_id = ''1000'', draft = timedUpdate, state = collecting,
                 draft_updatedAt = 1000, overwriteNext = False\<rparr>],
      updatedAt = 5, editingEventId = None, editingField = None, addingClass = False\<rparr>"

definition datedSession :: session where
  "datedSession =
     \<lparr>drafts = [\<lparr>draft_id = ''1000'', draft = datedUpdate, state = awaiting_confirm,
                 draft_updatedAt = 1000, overwriteNext = False\<rparr>],
      updatedAt = 5, editingEventId = None, editingField = None, addingClass = False\<rparr>"

text \<open>
  A clock that stands at 5000 and a zone-free reader that places every date at
  3600000; a store with event 1 of chat 7 on 2025-04-10 from 14:00 to 15:00, and a
  world in which chat 7 holds the awaiting Gym draft of \<open>datedSession\<close>.
\<close>

definition exampleRuntime :: runtime where
  "exampleRuntime =
     \<lparr>getDay = (\<lambda>d. Some 4), getTime = (\<lambda>s. Some 3600000), clock = (\<lambda>i. 5000)\<rparr>"

definition eventA :: event where
  "eventA =
     \<lparr>e_id = 1, e_chat_id = 7, e_task = ''A'', e_date = ''2025-04-10'',
      e_start_time = Some ''14:00'', e_end_time = Some ''15:00'', e_location = None,
      e_type = None\<rparr>"

definition exampleWorld :: world where
  "exampleWorld =
     \<lparr>w_sessions = [7 \<mapsto> datedSession],
      w_db = \<lparr>events = [eventA], events_seq = 1, school_timetable = []\<rparr>,
      w_jobs = Map.empty\<rparr>"

section \<open>Canonical times and intervals\<close>

text \<open>
  The form \<open>HH:MM\<close> in which \<open>normalizeTime\<close> writes a time, the minute of the day
  it names, and the interval of an item: from its start to its end, or to 60 minutes
  after its start when it has no end.
\<close>

definition isHHMM :: "string \<Rightarrow> bool" where
  "isHHMM s =
     (case s of
        [a, b, c, d, e] \<Rightarrow> isDigit a \<and> isDigit b \<and> c = CHR '':'' \<and> isDigit d \<and> isDigit e
      | _ \<Rightarrow> False)"

definition minutesOf :: "string \<Rightarrow> int" where
  "minutesOf s =
     (case s of
        [a, b, c, d, e] \<Rightarrow>
          int ((digitVal a * 10 + digitVal b) * 60 + (digitVal d * 10 + digitVal e))
      | _ \<Rightarrow> 0)"

definition intervalOf :: "string \<Rightarrow> jsval \<Rightarrow> int \<times> int" where
  "intervalOf st en =
     (minutesOf st,
      (case en of
         Some t \<Rightarrow> if t \<noteq> [] then minutesOf t else minutesOf st + 60
       | None \<Rightarrow> minutesOf st + 60))"

definition overlap :: "int \<times> int \<Rightarrow> int \<times> int \<Rightarrow> bool" where
  "overlap a b = (fst a < snd b \<and> fst b < snd a)"

text \<open>
  The canonical string for hour \<open>h\<close> and minute \<open>m\<close>, and the 24-hour value of hour
  \<open>h\<close> under the suffix \<open>am\<close> or \<open>pm\<close>.
\<close>

definition canonical :: "nat \<Rightarrow> nat \<Rightarrow> string" where
  "canonical h m =
     [digitChar (h div 10), digitChar (h mod 10), CHR '':'', digitChar (m div 10),
      digitChar (m mod 10)]"



text \<open>A time field is \<open>null\<close> or canonical; so is every time of the store.\<close>

definition timeOk :: "jsval \<Rightarrow> bool" where
  "timeOk v = (case v of None \<Rightarrow> True | Some s \<Rightarrow> isHHMM s)"

definition canonicalTimes :: "database \<Rightarrow> bool" where
  "canonicalTimes db =
     (list_all (\<lambda>e. timeOk (e_start_time e) \<and> timeOk (e_end_time e)) (events db)
      \<and> list_all (\<lambda>r. isHHMM (t_start_time r) \<and> isHHMM (t_end_time r)) (school_timetable db))"

text \<open>A Thursday class of chat 7 from 11:00 to 12:00, next to event A.\<close>

definition mathClass :: timetableEntry where
  "mathClass =
     \<lparr>t_id = 3, t_chat_id = 7, t_subject = ''Math'', t_day_of_week = 4,
      t_start_time = ''11:00'', t_end_time = ''12:00'', t_location = None\<rparr>"

definition exampleDb :: database where
  "exampleDb = \<lparr>events = [eventA], events_seq = 1, school_timetable = [mathClass]\<rparr>"

section \<open>Properties of pruning\<close>

lemma draftsOf_prune:
  "draftsOf (pruneExpiredDrafts t ss) chatId = filter (keepDraft t) (draftsOf ss chatId)"
  by (simp add: draftsOf_def pruneExpiredDrafts_def pruneSession_def Let_def
      split: option.splits)

text \<open>
  C5. In a prune pass at time \<open>t\<close> the drafts of every chat are filtered in place: a
  draft in state collecting is removed exactly when \<open>t\<close> minus its \<open>updatedAt\<close> exceeds
  90 seconds, a draft in state awaiting_confirm exactly when it exceeds 5 minutes.
\<close>

theorem prune_removes_exactly_expired:
  "draftsOf (pruneExpiredDrafts t ss) chatId =
     filter (\<lambda>d. \<not> (case state d of
                      collecting \<Rightarrow> t - draft_updatedAt d > 90000
                    | awaiting_confirm \<Rightarrow> t - draft_updatedAt d > 300000))
       (draftsOf ss chatId)"
proof -
  have "keepDraft t =
      (\<lambda>d. \<not> (case state d of
            collecting \<Rightarrow> t - draft_updatedAt d > 90000
          | awaiting_confirm \<Rightarrow> t - draft_updatedAt d > 300000))"
  proof
    fix d
    show "keepDraft t d =
      (\<not> (case state d of
            collecting \<Rightarrow> t - draft_updatedAt d > 90000
          | awaiting_confirm \<Rightarrow> t - draft_updatedAt d > 300000))"
      by (cases "state d")
        (auto simp add: keepDraft_def DRAFT_TTL_MS_def CONFIRM_TTL_MS_def)
  qed
  then show ?thesis
    by (simp add: draftsOf_prune)
qed

text \<open>
  The example of C5: at 91 seconds the collecting draft of chat 7 is removed and its
  awaiting draft survives.
\<close>

theorem prune_removes_exactly_expired_witness:
  "draftsOf (pruneExpiredDrafts 91000 idleSessions) 7 = [idleDrafts ! 1]
   \<and> state (idleDrafts ! 0) = collecting \<and> state (idleDrafts ! 1) = awaiting_confirm"
  using prune_removes_exactly_expired [of 91000 idleSessions 7]
  by (simp add: idleSessions_def idleDrafts_def draftsOf_def)

lemma prune_Some:
  "pruneExpiredDrafts t ss chatId = Some s' \<Longrightarrow>
   \<exists>s. ss chatId = Some s \<and> s' = s\<lparr>drafts := filter (keepDraft t) (drafts s)\<rparr>"
  by (auto simp add: pruneExpiredDrafts_def pruneSession_def Let_def
      split: option.splits if_splits)

lemma prune_passes_Some:
  "foldl (\<lambda>m t. pruneExpiredDrafts t m) ss ts chatId = Some s' \<Longrightarrow>
   \<exists>s. ss chatId = Some s \<and> editingEventId s' = editingEventId s
     \<and> editingField s' = editingField s \<and> addingClass s' = addingClass s
     \<and> updatedAt s' = updatedAt s"
proof (induction ts arbitrary: ss)
  case Nil
  then show ?case by simp
next
  case (Cons t ts)
  from Cons.prems
  have "foldl (\<lambda>m t. pruneExpiredDrafts t m) (pruneExpiredDrafts t ss) ts chatId = Some s'"
    by simp
  from Cons.IH [OF this] obtain s1 where s1: "pruneExpiredDrafts t ss chatId = Some s1"
    and eq: "editingEventId s' = editingEventId s1" "editingField s' = editingField s1"
      "addingClass s' = addingClass s1" "updatedAt s' = updatedAt s1"
    by blast
  from prune_Some [OF s1] obtain s where "ss chatId = Some s"
    and "s1 = s\<lparr>drafts := filter (keepDraft t) (drafts s)\<rparr>" by blast
  with eq show ?case by simp
qed

text \<open>
  C6 as the spec states it fails: a session without drafts that has been idle for more
  than 90 seconds is deleted by the pass, and the edit pointer of chat 8 and the
  intake flag of chat 9 are gone with it: the next \<open>getSession\<close> finds neither.
\<close>

theorem prune_deletes_idle_session_counterexample:
  "editingEventId (fst (getSession 0 8 idleSessions)) = Some 5
   \<and> editingEventId (fst (getSession 91000 8 (pruneExpiredDrafts 91000 idleSessions))) = None
   \<and> addingClass (fst (getSession 0 9 idleSessions))
   \<and> \<not> addingClass (fst (getSession 91000 9 (pruneExpiredDrafts 91000 idleSessions)))"
  by (simp add: idleSessions_def getSession_def pruneExpiredDrafts_def pruneSession_def
      newSession_def DRAFT_TTL_MS_def Let_def)

text \<open>
  C6, amended. A session that is still there after any sequence of prune passes has
  the edit pointer, the intake flag and the activity time it had before; one pass
  deletes a session exactly when none of its drafts is kept and it has been idle for
  more than 90 seconds, and otherwise changes nothing of it but the draft list.
\<close>

theorem prune_keeps_pointer_while_session_kept:
  assumes "ss chatId = Some s"
  shows "(case foldl (\<lambda>m t. pruneExpiredDrafts t m) ss ts chatId of
            None \<Rightarrow> True
          | Some s' \<Rightarrow>
              editingEventId s' = editingEventId s \<and> editingField s' = editingField s
              \<and> addingClass s' = addingClass s \<and> updatedAt s' = updatedAt s)
         \<and> (pruneExpiredDrafts t ss chatId = None
              \<longleftrightarrow> filter (keepDraft t) (drafts s) = [] \<and> t - updatedAt s > 90000)
         \<and> (pruneExpiredDrafts t ss chatId \<noteq> None
              \<longrightarrow> pruneExpiredDrafts t ss chatId
                    = Some (s\<lparr>drafts := filter (keepDraft t) (drafts s)\<rparr>))"
proof (intro conjI)
  show "case foldl (\<lambda>m t. pruneExpiredDrafts t m) ss ts chatId of
            None \<Rightarrow> True
          | Some s' \<Rightarrow>
              editingEventId s' = editingEventId s \<and> editingField s' = editingField s
              \<and> addingClass s' = addingClass s \<and> updatedAt s' = updatedAt s"
    using prune_passes_Some [of ss ts chatId] assms
    by (auto split: option.splits)
  show "pruneExpiredDrafts t ss chatId = None
       \<longleftrightarrow> filter (keepDraft t) (drafts s) = [] \<and> t - updatedAt s > 90000"
    using assms
    by (simp add: pruneExpiredDrafts_def pruneSession_def Let_def DRAFT_TTL_MS_def)
  show "pruneExpiredDrafts t ss chatId \<noteq> None
       \<longrightarrow> pruneExpiredDrafts t ss chatId
            = Some (s\<lparr>drafts := filter (keepDraft t) (drafts s)\<rparr>)"
    using assms
    by (simp add: pruneExpiredDrafts_def pruneSession_def Let_def)
qed

theorem prune_keeps_pointer_while_session_kept_witness:
  "map_option editingEventId
     (foldl (\<lambda>m t. pruneExpiredDrafts t m) activeSessions [90000, 120000] 8) = Some (Some 5)
   \<and> pruneExpiredDrafts 150001 activeSessions 8 = None"
  using prune_keeps_pointer_while_session_kept [of activeSessions 8
      "\<lparr>drafts = [], updatedAt = 60000, editingEventId = Some 5,
        editingField = Some ''title'', addingClass = False\<rparr>" "[90000, 120000]" 150001]
  by (simp add: activeSessions_def pruneExpiredDrafts_def pruneSession_def Let_def
      DRAFT_TTL_MS_def)

section \<open>Properties of the draft decisions\<close>

text \<open>
  C2. \<open>shouldStartNewDraftFromUpdate\<close> is false whenever \<open>overwrite_intent\<close> is
  true. Otherwise it is true exactly when the fragment carries a date that differs
  from the date the draft already has and the draft has a title, a start time or a
  location, or the fragment carries a task that differs from the task the draft
  already has and the draft has a date. On the empty draft it is always false.
\<close>

theorem shouldStartNewDraft_decision:
  "(overwriteIntent \<longrightarrow> \<not> shouldStartNewDraftFromUpdate (Some d) updates overwriteIntent)
   \<and> (\<not> overwriteIntent \<longrightarrow>
        shouldStartNewDraftFromUpdate (Some d) updates overwriteIntent
        = ((truthy (getProp updates ''date'') \<and> truthy (getProp d ''date'')
             \<and> getProp updates ''date'' \<noteq> getProp d ''date''
             \<and> (truthy (getProp d ''task'') \<or> truthy (getProp d ''start_time'')
                  \<or> truthy (getProp d ''location'')))
           \<or> (truthy (getProp updates ''task'') \<and> truthy (getProp d ''task'')
               \<and> getProp updates ''task'' \<noteq> getProp d ''task''
               \<and> truthy (getProp d ''date''))))
   \<and> \<not> shouldStartNewDraftFromUpdate (Some makeEmptyDraft) updates overwriteIntent"
  by (auto simp add: shouldStartNewDraftFromUpdate_def optProp_def Let_def makeEmptyDraft_def
      getProp_def truthy_def)

text \<open>
  The examples of the spec: a new date or a new title on the dated Gym draft forks,
  an explicit correction does not, and neither does a date for the empty draft.
\<close>

theorem shouldStartNewDraft_decision_witness:
  "shouldStartNewDraftFromUpdate (Some gymDraft) [(''date'', Some ''2025-03-05'')] False
   \<and> shouldStartNewDraftFromUpdate (Some gymDraft) [(''task'', Some ''Swim'')] False
   \<and> \<not> shouldStartNewDraftFromUpdate (Some gymDraft) [(''task'', Some ''Swim'')] True
   \<and> \<not> shouldStartNewDraftFromUpdate (Some gymDraft) [(''task'', Some ''Gym'')] False
   \<and> \<not> shouldStartNewDraftFromUpdate (Some makeEmptyDraft) [(''date'', Some ''2025-03-01'')] False"
  using shouldStartNewDraft_decision [of False gymDraft "[(''date'', Some ''2025-03-05'')]"]
    shouldStartNewDraft_decision [of False gymDraft "[(''task'', Some ''Swim'')]"]
    shouldStartNewDraft_decision [of True gymDraft "[(''task'', Some ''Swim'')]"]
    shouldStartNewDraft_decision [of False gymDraft "[(''task'', Some ''Gym'')]"]
    shouldStartNewDraft_decision [of False makeEmptyDraft "[(''date'', Some ''2025-03-01'')]"]
  by (simp add: gymDraft_def makeEmptyDraft_def getProp_def truthy_def)

lemma map_of_setOwn: "map_of (setOwn d k v) = (map_of d)(k \<mapsto> v)"
  by (induction d) (auto simp add: fun_eq_iff)

lemma ownKeys_setOwn: "k \<in> set (ownKeys d) \<Longrightarrow> ownKeys (setOwn d k v) = ownKeys d"
  by (induction d) (auto simp add: ownKeys_def rev_image_eqI)


lemma own_iff: "k \<in> set (ownKeys d) \<longleftrightarrow> map_of d k \<noteq> None"
  by (simp add: ownKeys_def map_of_eq_None_iff)

lemma map_of_assign_other: "k' \<noteq> k \<Longrightarrow> map_of (assign d k' v) k = map_of d k"
  by (simp add: assign_def map_of_setOwn)

lemma map_of_mergeStep_other:
  "fst e \<noteq> k \<Longrightarrow> map_of (mergeStep allow d e) k = map_of d k"
  by (cases e) (simp add: mergeStep_def map_of_assign_other)

lemma map_of_merge_other:
  "k \<notin> fst ` set u \<Longrightarrow> map_of (foldl (mergeStep allow) d u) k = map_of d k"
  by (induction u arbitrary: d) (auto simp add: map_of_mergeStep_other)

lemma ownKeys_assign_own: "k \<in> set (ownKeys d) \<Longrightarrow> ownKeys (assign d k v) = ownKeys d"
  by (simp add: assign_def ownKeys_setOwn)

lemma getProp_assign_own:
  "k' \<in> set (ownKeys d) \<Longrightarrow> getProp (assign d k' v) k = (if k = k' then v else getProp d k)"
  by (simp add: assign_def map_of_setOwn getProp_def)

text \<open>Without permission to overwrite, only an own falsy property is assigned.\<close>

lemma mergeStep_no_overwrite:
  "mergeStep False d (k, v) =
     (if v \<noteq> None \<and> k \<in> set (ownKeys d) \<and> \<not> truthy (getProp d k) then assign d k v else d)"
  by (auto simp add: mergeStep_def hasProperty_def propTruthy_def getProp_def own_iff truthy_def
      split: option.splits)

lemma ownKeys_mergeStep_False: "ownKeys (mergeStep False d e) = ownKeys d"
  by (cases e) (simp add: mergeStep_no_overwrite ownKeys_assign_own)

lemma getProp_mergeStep_False_truthy:
  "truthy (getProp d k) \<Longrightarrow> getProp (mergeStep False d e) k = getProp d k"
  by (cases e) (auto simp add: mergeStep_no_overwrite getProp_assign_own)

lemma getProp_mergeStep_False_changed:
  "getProp (mergeStep False d e) k \<noteq> getProp d k \<Longrightarrow>
   \<exists>v. e = (k, Some v) \<and> getProp (mergeStep False d e) k = Some v
       \<and> k \<in> set (ownKeys d) \<and> \<not> truthy (getProp d k)"
  by (cases e)
    (auto simp add: mergeStep_no_overwrite getProp_assign_own split: if_splits)

lemma ownKeys_merge_False: "ownKeys (foldl (mergeStep False) d u) = ownKeys d"
  by (induction u arbitrary: d) (simp_all add: ownKeys_mergeStep_False)

lemma getProp_merge_False_truthy:
  "truthy (getProp d k) \<Longrightarrow> getProp (foldl (mergeStep False) d u) k = getProp d k"
  by (induction u arbitrary: d) (simp_all add: getProp_mergeStep_False_truthy)

lemma getProp_merge_False_changed:
  "getProp (foldl (mergeStep False) d u) k \<noteq> getProp d k \<Longrightarrow>
   \<not> truthy (getProp d k) \<and>
   (\<exists>v. (k, Some v) \<in> set u \<and> getProp (foldl (mergeStep False) d u) k = Some v)"
proof (induction u arbitrary: d)
  case Nil
  then show ?case by simp
next
  case (Cons e u)
  let ?d1 = "mergeStep False d e"
  show ?case
  proof (cases "getProp (foldl (mergeStep False) ?d1 u) k = getProp ?d1 k")
    case True
    with Cons.prems have "getProp ?d1 k \<noteq> getProp d k" by simp
    from getProp_mergeStep_False_changed [OF this] True show ?thesis by auto
  next
    case False
    from Cons.IH [OF False] have nt: "\<not> truthy (getProp ?d1 k)"
      and ex: "\<exists>v. (k, Some v) \<in> set u \<and> getProp (foldl (mergeStep False) ?d1 u) k = Some v"
      by blast+
    have "\<not> truthy (getProp d k)"
      using nt getProp_mergeStep_False_truthy [of d k e] by auto
    with ex show ?thesis by auto
  qed
qed

lemma getProp_merge_False_filled:
  "distinct (map fst u) \<Longrightarrow> k \<in> set (ownKeys d) \<Longrightarrow> \<not> truthy (getProp d k) \<Longrightarrow>
   (k, Some v) \<in> set u \<Longrightarrow> getProp (foldl (mergeStep False) d u) k = Some v"
proof (induction u arbitrary: d)
  case Nil
  then show ?case by simp
next
  case (Cons e u)
  obtain k' v' where e: "e = (k', v')" by (cases e)
  show ?case
  proof (cases "k' = k")
    case True
    with Cons.prems e have notin: "k \<notin> fst ` set u" by auto
    with Cons.prems(4) e True have v': "v' = Some v" by force
    have "getProp (mergeStep False d e) k = Some v"
      using Cons.prems(2,3) e True v' by (simp add: mergeStep_no_overwrite getProp_assign_own)
    moreover have "getProp (foldl (mergeStep False) (mergeStep False d e) u) k
        = getProp (mergeStep False d e) k"
      using map_of_merge_other [OF notin] by (simp add: getProp_def)
    ultimately show ?thesis by simp
  next
    case False
    have same: "getProp (mergeStep False d e) k = getProp d k"
      using False e map_of_mergeStep_other [of e k False d] by (simp add: getProp_def)
    have "getProp (foldl (mergeStep False) (mergeStep False d e) u) k = Some v"
    proof (rule Cons.IH)
      show "distinct (map fst u)" using Cons.prems(1) by simp
      show "k \<in> set (ownKeys (mergeStep False d e))"
        using Cons.prems(2) by (simp add: ownKeys_mergeStep_False)
      show "\<not> truthy (getProp (mergeStep False d e) k)"
        using Cons.prems(3) same by simp
      show "(k, Some v) \<in> set u" using Cons.prems(4) e False by auto
    qed
    then show ?thesis by simp
  qed
qed

lemma mergeDraft_False: "mergeDraft d u False False = foldl (mergeStep False) d u"
  by (simp add: mergeDraft_def)

lemma ownKeys_mergeSequence: "ownKeys (mergeSequence d us) = ownKeys d"
  unfolding mergeSequence_def
  by (induction us arbitrary: d) (simp_all add: mergeDraft_False ownKeys_merge_False)

lemma getProp_mergeSequence_truthy:
  "truthy (getProp d k) \<Longrightarrow> getProp (mergeSequence d us) k = getProp d k"
  unfolding mergeSequence_def
  by (induction us arbitrary: d) (simp_all add: mergeDraft_False getProp_merge_False_truthy)

lemma getProp_mergeSequence_changed:
  "getProp (mergeSequence d us) k \<noteq> getProp d k \<Longrightarrow>
   \<not> truthy (getProp d k) \<and>
   (\<exists>u \<in> set us. \<exists>v. (k, Some v) \<in> set u \<and> getProp (mergeSequence d us) k = Some v)"
proof (induction us arbitrary: d)
  case Nil
  then show ?case by (simp add: mergeSequence_def)
next
  case (Cons u us)
  let ?d1 = "mergeDraft d u False False"
  have unfold: "mergeSequence d (u # us) = mergeSequence ?d1 us"
    by (simp add: mergeSequence_def)
  show ?case
  proof (cases "getProp (mergeSequence ?d1 us) k = getProp ?d1 k")
    case True
    with Cons.prems unfold have "getProp (foldl (mergeStep False) d u) k \<noteq> getProp d k"
      by (simp add: mergeDraft_False)
    from getProp_merge_False_changed [OF this] True unfold show ?thesis
      by (auto simp add: mergeDraft_False)
  next
    case False
    from Cons.IH [OF False] have nt: "\<not> truthy (getProp ?d1 k)"
      and ex: "\<exists>u' \<in> set us. \<exists>v. (k, Some v) \<in> set u'
                  \<and> getProp (mergeSequence ?d1 us) k = Some v"
      by blast+
    have "\<not> truthy (getProp d k)"
      using nt getProp_merge_False_truthy [of d k u] by (auto simp add: mergeDraft_False)
    with ex unfold show ?thesis by auto
  qed
qed

text \<open>
  C3. After any sequence of merges with \<open>overwrite_intent\<close> and \<open>overwriteNext\<close>
  both false the draft has the keys it had, every field that was non-empty holds the
  value it held, and a field whose value changed was empty and now holds the non-null
  value some fragment of the sequence carries for it. In one such merge an empty
  field takes the non-null value the fragment carries for it (a fragment is an
  object, so its keys are distinct).
\<close>

theorem mergeDraft_nondestructive:
  "ownKeys (mergeSequence d us) = ownKeys d
   \<and> (truthy (getProp d k) \<longrightarrow> getProp (mergeSequence d us) k = getProp d k)
   \<and> (getProp (mergeSequence d us) k \<noteq> getProp d k \<longrightarrow>
        \<not> truthy (getProp d k)
        \<and> (\<exists>u \<in> set us. \<exists>v. (k, Some v) \<in> set u \<and> getProp (mergeSequence d us) k = Some v))
   \<and> (distinct (ownKeys u) \<and> k \<in> set (ownKeys d) \<and> \<not> truthy (getProp d k)
        \<and> (k, Some v) \<in> set u \<longrightarrow> getProp (mergeDraft d u False False) k = Some v)"
  using ownKeys_mergeSequence [of d us] getProp_mergeSequence_truthy [of d k us]
    getProp_mergeSequence_changed [of d us k] getProp_merge_False_filled [of u k d v]
  by (simp add: mergeDraft_False ownKeys_def)

text \<open>
  Two fragments merged into the Gym draft: title and date stay, start time and
  location are filled.
\<close>

theorem mergeDraft_nondestructive_witness:
  "mergeSequence gymDraft
     [ [(''date'', Some ''2025-03-05''), (''start_time'', Some ''18:00'')],
      [(''task'', Some ''Swim''), (''location'', Some ''Pool''), (''end_time'', None)]]
   = [(''task'', Some ''Gym''), (''date'', Some ''2025-03-01''), (''start_time'', Some ''18:00''),
      (''end_time'', None), (''location'', Some ''Pool''), (''type'', None)]
   \<and> truthy (getProp gymDraft ''task'') \<and> \<not> truthy (getProp gymDraft ''location'')
   \<and> getProp (mergeDraft gymDraft [(''task'', Some ''Swim''), (''location'', Some ''Pool'')]
        False False) ''location'' = Some ''Pool''"
  using mergeDraft_nondestructive [of gymDraft
      "[ [(''date'', Some ''2025-03-05''), (''start_time'', Some ''18:00'')],
        [(''task'', Some ''Swim''), (''location'', Some ''Pool''), (''end_time'', None)]]"
      "''task''" "[(''task'', Some ''Swim''), (''location'', Some ''Pool'')]" "''Swim''"]
    mergeDraft_nondestructive [of gymDraft "[]" "''location''"
      "[(''task'', Some ''Swim''), (''location'', Some ''Pool'')]" "''Pool''"]
  by (simp add: gymDraft_def mergeSequence_def mergeDraft_def mergeStep_def hasProperty_def
      propTruthy_def ownKeys_def assign_def getProp_def truthy_def objectPrototypeKeys_def)












lemma findIndex_Some:
  "findIndex P xs = Some j \<Longrightarrow> j < length xs \<and> P (xs ! j)"
proof (induction xs arbitrary: j)
  case Nil
  then show ?case by simp
next
  case (Cons x xs)
  then show ?case by (cases j) (auto split: if_splits)
qed

lemma activeDraftIndex_Some:
  assumes "activeDraftIndex ds = Some i"
  shows "i < length ds \<and> state (ds ! i) = collecting"
proof -
  from assms obtain j where j: "findIndex (\<lambda>d. state d = collecting) (rev ds) = Some j"
    and i: "i = length ds - 1 - j"
    by (auto simp add: activeDraftIndex_def)
  from findIndex_Some [OF j] have lt: "j < length ds" and st: "state (rev ds ! j) = collecting"
    by simp_all
  from lt have "rev ds ! j = ds ! (length ds - Suc j)" by (simp add: rev_nth)
  with st lt i show ?thesis by simp
qed

lemma mergeIntoDraft_result:
  assumes "mergeIntoDraft now updates oi s = (s', i, r)"
  shows "i < length (drafts s')
    \<and> (i < length (drafts s) \<longrightarrow> state (drafts s ! i) = collecting)
    \<and> state (drafts s' ! i)
        = (if draftIsCompleteEnough (draft (drafts s' ! i)) then awaiting_confirm else collecting)
    \<and> draft (drafts s' ! i)
        = (if i < length (drafts s)
           then mergeDraft (draft (drafts s ! i)) updates oi (overwriteNext (drafts s ! i))
           else mergeDraft makeEmptyDraft updates oi False)
    \<and> (\<forall>j < length (drafts s). j \<noteq> i \<longrightarrow> drafts s' ! j = drafts s ! j)"
proof (cases "activeDraftIndex (drafts s)")
  case None
  show ?thesis
    using assms None
    by (auto simp add: mergeIntoDraft_def Let_def nth_append newDraftObj_def
        split: if_splits)
next
  case (Some a)
  from activeDraftIndex_Some [OF Some]
  have a: "a < length (drafts s)" "state (drafts s ! a) = collecting" by simp_all
  show ?thesis
    using assms Some a
    by (auto simp add: mergeIntoDraft_def Let_def nth_append newDraftObj_def
        split: if_splits)
qed

text \<open>
  C4. After the merge step of the message handler the draft it merged into, which was
  collecting or is new, is awaiting_confirm if and only if its task and its date are
  both non-empty, and collecting otherwise; its fields are the merge of the fragment
  into what it held, and no other draft of the session is touched.
\<close>

theorem merged_draft_awaits_iff_complete:
  assumes "mergeIntoDraft now updates oi s = (s', i, r)"
  shows "i < length (drafts s')
    \<and> (i < length (drafts s) \<longrightarrow> state (drafts s ! i) = collecting)
    \<and> (state (drafts s' ! i) = awaiting_confirm
         \<longleftrightarrow> truthy (getProp (draft (drafts s' ! i)) ''task'')
             \<and> truthy (getProp (draft (drafts s' ! i)) ''date''))
    \<and> (state (drafts s' ! i) = collecting
         \<longleftrightarrow> \<not> (truthy (getProp (draft (drafts s' ! i)) ''task'')
                \<and> truthy (getProp (draft (drafts s' ! i)) ''date'')))
    \<and> draft (drafts s' ! i)
        = (if i < length (drafts s)
           then mergeDraft (draft (drafts s ! i)) updates oi (overwriteNext (drafts s ! i))
           else mergeDraft makeEmptyDraft updates oi False)
    \<and> (\<forall>j < length (drafts s). j \<noteq> i \<longrightarrow> drafts s' ! j = drafts s ! j)"
  using mergeIntoDraft_result [OF assms]
  by (simp add: draftIsCompleteEnough_def)

text \<open>
  A first message with title, times, location and type but no date leaves the draft
  collecting; one with title and date alone makes it awaiting_confirm.
\<close>

theorem merged_draft_awaits_iff_complete_witness:
  "mergeIntoDraft 1000 timedUpdate False (newSession 5)
     = (timedSession, 0, DraftUpdated [''date''])
   \<and> state (drafts timedSession ! 0) = collecting
   \<and> mergeIntoDraft 1000 datedUpdate False (newSession 5)
     = (datedSession, 0, AskConfirm ''1000'')
   \<and> state (drafts datedSession ! 0) = awaiting_confirm"
proof -
  have timed: "mergeIntoDraft 1000 timedUpdate False (newSession 5)
      = (timedSession, 0, DraftUpdated [''date''])"
    by code_simp
  have dated: "mergeIntoDraft 1000 datedUpdate False (newSession 5)
      = (datedSession, 0, AskConfirm ''1000'')"
    by code_simp
  from merged_draft_awaits_iff_complete [OF timed] merged_draft_awaits_iff_complete [OF dated]
    timed dated
  show ?thesis
    by (simp add: timedSession_def datedSession_def timedUpdate_def datedUpdate_def
        getProp_def truthy_def)
qed

section \<open>Properties of the draft buttons and of the reminders\<close>

lemma findIndex_None: "findIndex P xs = None \<longleftrightarrow> (\<forall>x \<in> set xs. \<not> P x)"
  by (induction xs) auto

text \<open>
  C9. A confirm, edit, discard or conflict button whose payload names a draft that
  the chat's session does not hold answers that the draft expired and mutates
  nothing: the event store and the reminder jobs are as before, and so is the whole
  world when the chat has a session. When it has none, \<open>getSession\<close> has created an
  empty one, without drafts and without pointers.
\<close>

theorem stale_draft_button_expires:
  assumes "draftId \<notin> draft_id ` set (draftsOf (w_sessions w) chatId)"
  shows "fst (draftButton rt now chatId act draftId w) = DraftExpired
    \<and> w_db (snd (draftButton rt now chatId act draftId w)) = w_db w
    \<and> w_jobs (snd (draftButton rt now chatId act draftId w)) = w_jobs w
    \<and> (case w_sessions w chatId of
          Some s \<Rightarrow> snd (draftButton rt now chatId act draftId w) = w
        | None \<Rightarrow>
            snd (draftButton rt now chatId act draftId w)
            = w\<lparr>w_sessions := (w_sessions w)(chatId \<mapsto> newSession now)\<rparr>)
    \<and> draftsOf (w_sessions (snd (draftButton rt now chatId act draftId w))) chatId
        = draftsOf (w_sessions w) chatId"
proof (cases "w_sessions w chatId")
  case None
  then show ?thesis
    by (simp add: draftButton_def getSession_def newSession_def draftsOf_def)
next
  case (Some s)
  with assms have "findIndex (\<lambda>x. draft_id x = draftId) (drafts s) = None"
    by (auto simp add: findIndex_None draftsOf_def)
  with Some show ?thesis
    by (simp add: draftButton_def getSession_def draftsOf_def)
qed

text \<open>
  Chat 7 holds draft 1000 only: the buttons for draft 999 leave the world as it is,
  while discarding draft 1000 is carried out.
\<close>

theorem stale_draft_button_expires_witness:
  "draftButton exampleRuntime 2000 7 confirm ''999'' exampleWorld = (DraftExpired, exampleWorld)
   \<and> draftButton exampleRuntime 2000 7 conflict_replace ''999'' exampleWorld
       = (DraftExpired, exampleWorld)
   \<and> fst (draftButton exampleRuntime 2000 7 discard ''1000'' exampleWorld) = Discarded"
proof -
  have stale: "''999'' \<notin> draft_id ` set (draftsOf (w_sessions exampleWorld) 7)"
    by (simp add: exampleWorld_def datedSession_def draftsOf_def)
  have here: "w_sessions exampleWorld 7 = Some datedSession"
    by (simp add: exampleWorld_def)
  have "fst (draftButton exampleRuntime 2000 7 discard ''1000'' exampleWorld) = Discarded"
    by (simp add: draftButton_def getSession_def exampleWorld_def datedSession_def)
  with stale_draft_button_expires [OF stale, of exampleRuntime 2000 confirm]
    stale_draft_button_expires [OF stale, of exampleRuntime 2000 conflict_replace] here
  show ?thesis
    by (simp add: prod_eq_iff)
qed

lemma String_nat_offsets:
  "String_nat 1440 = ''1440''" "String_nat 360 = ''360''" "String_nat 30 = ''30''"
  by code_simp+

lemma jobKey_offsets:
  "jobKey n 1440 = String_nat n @ ''-1440''"
  "jobKey n 360 = String_nat n @ ''-360''"
  "jobKey n 30 = String_nat n @ ''-30''"
  by (simp_all add: jobKey_def String_nat_offsets)

lemma scheduleLoop_unfold:
  "scheduleLoop rt chatId ev (Some T) 0 reminderOffsets js =
     (let js1 = (if T - 1440 * 60 * 1000 > clock rt 0
                 then js(jobKey (e_id ev) 1440 \<mapsto>
                        \<lparr>job_time = T - 1440 * 60 * 1000, job_chat = chatId,
                         job_label = ''1 day''\<rparr>)
                 else js);
          js2 = (if T - 360 * 60 * 1000 > clock rt 1
                 then js1(jobKey (e_id ev) 360 \<mapsto>
                        \<lparr>job_time = T - 360 * 60 * 1000, job_chat = chatId,
                         job_label = ''6 hours''\<rparr>)
                 else js1)
      in if T - 30 * 60 * 1000 > clock rt 2
         then js2(jobKey (e_id ev) 30 \<mapsto>
                \<lparr>job_time = T - 30 * 60 * 1000, job_chat = chatId,
                 job_label = ''30 minutes''\<rparr>)
         else js2)"
  by (simp add: reminderOffsets_def Let_def numeral_2_eq_2)

lemma scheduleLoop_offsets:
  "scheduleLoop rt chatId ev (Some T) 0 reminderOffsets js key =
     (if key = String_nat (e_id ev) @ ''-1440'' \<and> T - 1440 * 60 * 1000 > clock rt 0
      then Some \<lparr>job_time = T - 1440 * 60 * 1000, job_chat = chatId, job_label = ''1 day''\<rparr>
      else if key = String_nat (e_id ev) @ ''-360'' \<and> T - 360 * 60 * 1000 > clock rt 1
      then Some \<lparr>job_time = T - 360 * 60 * 1000, job_chat = chatId, job_label = ''6 hours''\<rparr>
      else if key = String_nat (e_id ev) @ ''-30'' \<and> T - 30 * 60 * 1000 > clock rt 2
      then Some \<lparr>job_time = T - 30 * 60 * 1000, job_chat = chatId, job_label = ''30 minutes''\<rparr>
      else js key)"
  unfolding scheduleLoop_unfold jobKey_offsets Let_def
  by simp

text \<open>
  C7. For an event with a start time whose date and start time read as the local
  instant \<open>T\<close>, \<open>scheduleReminder\<close> sets, of the three keys \<open>id-1440\<close>, \<open>id-360\<close>
  and \<open>id-30\<close>, exactly those whose instant (\<open>T\<close> minus 1440, 360, 30 minutes) is
  strictly after the clock reading of its iteration, and leaves every other key of
  the registry alone. An event that starts 10 minutes from now registers no
  reminder, one that starts 2 days from now registers all three.
\<close>

theorem scheduleReminder_registers_future_instants:
  assumes "e_start_time ev = Some st" and "st \<noteq> []"
    and "getTime rt (e_date ev @ ''T'' @ st @ '':00'') = Some T"
  shows "(\<forall>key. scheduleReminder rt chatId ev js key =
       (if key = String_nat (e_id ev) @ ''-1440'' \<and> T - 1440 * 60 * 1000 > clock rt 0
        then Some \<lparr>job_time = T - 1440 * 60 * 1000, job_chat = chatId, job_label = ''1 day''\<rparr>
        else if key = String_nat (e_id ev) @ ''-360'' \<and> T - 360 * 60 * 1000 > clock rt 1
        then Some \<lparr>job_time = T - 360 * 60 * 1000, job_chat = chatId, job_label = ''6 hours''\<rparr>
        else if key = String_nat (e_id ev) @ ''-30'' \<and> T - 30 * 60 * 1000 > clock rt 2
        then Some \<lparr>job_time = T - 30 * 60 * 1000, job_chat = chatId, job_label = ''30 minutes''\<rparr>
        else js key))
    \<and> ((\<forall>i. now \<le> clock rt i) \<and> T = now + 10 * 60 * 1000 \<longrightarrow>
          scheduleReminder rt chatId ev js = js)
    \<and> ((\<forall>i. clock rt i = now) \<and> T = now + 2 * 24 * 60 * 60 * 1000 \<longrightarrow>
          scheduleReminder rt chatId ev js (String_nat (e_id ev) @ ''-1440'')
            = Some \<lparr>job_time = now + 24 * 60 * 60 * 1000, job_chat = chatId, job_label = ''1 day''\<rparr>
          \<and> scheduleReminder rt chatId ev js (String_nat (e_id ev) @ ''-360'')
            = Some \<lparr>job_time = now + 42 * 60 * 60 * 1000, job_chat = chatId,
                     job_label = ''6 hours''\<rparr>
          \<and> scheduleReminder rt chatId ev js (String_nat (e_id ev) @ ''-30'')
            = Some \<lparr>job_time = now + 2 * 24 * 60 * 60 * 1000 - 30 * 60 * 1000,
                     job_chat = chatId, job_label = ''30 minutes''\<rparr>)"
proof -
  have eq: "scheduleReminder rt chatId ev js
      = scheduleLoop rt chatId ev (Some T) 0 reminderOffsets js"
    using assms by (simp add: scheduleReminder_def)
  show ?thesis
  proof (intro conjI allI impI)
    fix key
    show "scheduleReminder rt chatId ev js key =
       (if key = String_nat (e_id ev) @ ''-1440'' \<and> T - 1440 * 60 * 1000 > clock rt 0
        then Some \<lparr>job_time = T - 1440 * 60 * 1000, job_chat = chatId, job_label = ''1 day''\<rparr>
        else if key = String_nat (e_id ev) @ ''-360'' \<and> T - 360 * 60 * 1000 > clock rt 1
        then Some \<lparr>job_time = T - 360 * 60 * 1000, job_chat = chatId, job_label = ''6 hours''\<rparr>
        else if key = String_nat (e_id ev) @ ''-30'' \<and> T - 30 * 60 * 1000 > clock rt 2
        then Some \<lparr>job_time = T - 30 * 60 * 1000, job_chat = chatId, job_label = ''30 minutes''\<rparr>
        else js key)"
      by (simp only: eq scheduleLoop_offsets)
  next
    assume a: "(\<forall>i. now \<le> clock rt i) \<and> T = now + 10 * 60 * 1000"
    then have "now \<le> clock rt 0" "now \<le> clock rt 1" "now \<le> clock rt 2"
      and "T = now + 10 * 60 * 1000" by blast+
    then show "scheduleReminder rt chatId ev js = js"
      by (auto simp add: eq scheduleLoop_offsets fun_eq_iff)
  next
    assume a: "(\<forall>i. clock rt i = now) \<and> T = now + 2 * 24 * 60 * 60 * 1000"
    then show "scheduleReminder rt chatId ev js (String_nat (e_id ev) @ ''-1440'')
        = Some \<lparr>job_time = now + 24 * 60 * 60 * 1000, job_chat = chatId, job_label = ''1 day''\<rparr>"
      by (simp add: eq scheduleLoop_offsets)
  next
    assume a: "(\<forall>i. clock rt i = now) \<and> T = now + 2 * 24 * 60 * 60 * 1000"
    then show "scheduleReminder rt chatId ev js (String_nat (e_id ev) @ ''-360'')
        = Some \<lparr>job_time = now + 42 * 60 * 60 * 1000, job_chat = chatId,
                 job_label = ''6 hours''\<rparr>"
      by (simp add: eq scheduleLoop_offsets)
  next
    assume a: "(\<forall>i. clock rt i = now) \<and> T = now + 2 * 24 * 60 * 60 * 1000"
    then show "scheduleReminder rt chatId ev js (String_nat (e_id ev) @ ''-30'')
        = Some \<lparr>job_time = now + 2 * 24 * 60 * 60 * 1000 - 30 * 60 * 1000,
                 job_chat = chatId, job_label = ''30 minutes''\<rparr>"
      by (simp add: eq scheduleLoop_offsets)
  qed
qed

text \<open>
  Event 1 starts 3600000 ms after the epoch and the clock stands at 5000: only the
  30-minute reminder is still ahead.
\<close>

theorem scheduleReminder_registers_future_instants_witness:
  "scheduleReminder exampleRuntime 7 eventA Map.empty ''1-30''
     = Some \<lparr>job_time = 1800000, job_chat = 7, job_label = ''30 minutes''\<rparr>
   \<and> scheduleReminder exampleRuntime 7 eventA Map.empty ''1-360'' = None
   \<and> scheduleReminder exampleRuntime 7 eventA Map.empty ''1-1440'' = None"
proof -
  have one: "String_nat (Suc 0) = ''1''" by code_simp
  from scheduleReminder_registers_future_instants [of eventA "''14:00''" exampleRuntime 3600000
      7 Map.empty 0]
  show ?thesis
    by (simp add: exampleRuntime_def eventA_def one)
qed

section \<open>Properties of conflict detection\<close>

lemma isDigit_not_colon: "isDigit c \<Longrightarrow> c \<noteq> CHR '':''"
  by (auto simp add: isDigit_def)

lemma isHHMM_cases:
  assumes "isHHMM s"
  obtains a b d e where "s = [a, b, CHR '':'', d, e]"
    and "isDigit a" and "isDigit b" and "isDigit d" and "isDigit e"
  using assms by (auto simp add: isHHMM_def split: list.splits)

lemma timeToMinutes_HHMM:
  assumes "isHHMM s"
  shows "timeToMinutes s = Some (minutesOf s)"
proof -
  from assms obtain a b d e where s: "s = [a, b, CHR '':'', d, e]"
    and dig: "isDigit a" "isDigit b" "isDigit d" "isDigit e"
    by (rule isHHMM_cases)
  from dig have ne: "a \<noteq> CHR '':''" "b \<noteq> CHR '':''" "d \<noteq> CHR '':''" "e \<noteq> CHR '':''"
    by (simp_all add: isDigit_not_colon)
  have sp: "split (CHR '':'') s = [a, b] # [d, e] # []"
    using ne by (simp add: s)
  have "timeToMinutes s = Some (int (decimal [a, b]) * 60 + int (decimal [d, e]))"
    using dig by (simp add: timeToMinutes_def sp Number_def)
  moreover have "minutesOf s = int (decimal [a, b]) * 60 + int (decimal [d, e])"
    by (simp add: minutesOf_def s decimal_def)
  ultimately show ?thesis by simp
qed

lemma isHHMM_nonempty: "isHHMM s \<Longrightarrow> s \<noteq> []"
  by (auto simp add: isHHMM_def)

lemma eventOverlaps_canonical:
  assumes "e_start_time e = Some s" and "isHHMM s" and "timeOk (e_end_time e)"
  shows "eventOverlaps (Some a) (Some b) e = overlap (a, b) (intervalOf s (e_end_time e))"
  using assms
  by (auto simp add: eventOverlaps_def overlap_def intervalOf_def js_less_def timeOk_def
      timeToMinutes_HHMM isHHMM_nonempty Let_def split: option.splits)

lemma entryOverlaps_canonical:
  assumes "isHHMM (t_start_time r)" and "isHHMM (t_end_time r)"
  shows "entryOverlaps (Some a) (Some b) r
    = overlap (a, b) (intervalOf (t_start_time r) (Some (t_end_time r)))"
  using assms
  by (simp add: entryOverlaps_def overlap_def intervalOf_def js_less_def
      timeToMinutes_HHMM isHHMM_nonempty Let_def)

lemma set_getSchoolTimetableForDate:
  "set (getSchoolTimetableForDate rt db chatId date) \<subseteq> set (school_timetable db)"
  by (auto simp add: getSchoolTimetableForDate_def Let_def)

text \<open>
  C1. \<open>checkConflicts\<close> returns the empty list when the candidate start time is
  absent. Otherwise, the times being canonical, it returns the events of that chat and
  date that have a start time, then the timetable entries of that weekday, each
  exactly when its interval overlaps the candidate's: \<open>candidateStart < otherEnd\<close>
  and \<open>otherStart < candidateEnd\<close>, an absent end being start plus 60 minutes.
  Touching at a boundary is no overlap.
\<close>

theorem checkConflicts_overlap:
  "(\<not> truthy startTime \<longrightarrow> checkConflicts rt db chatId date startTime endTime = [])
   \<and> (isHHMM st \<and> timeOk endTime \<and> canonicalTimes db \<longrightarrow>
        checkConflicts rt db chatId date (Some st) endTime
        = map conflictOfEvent
            (filter (\<lambda>e. e_chat_id e = chatId \<and> Some (e_date e) = date
                          \<and> (case e_start_time e of
                                None \<Rightarrow> False
                              | Some s \<Rightarrow>
                                  overlap (intervalOf st endTime) (intervalOf s (e_end_time e))))
               (events db))
          @ map (conflictOfEntry date)
              (filter (\<lambda>r. overlap (intervalOf st endTime)
                               (intervalOf (t_start_time r) (Some (t_end_time r))))
                 (getSchoolTimetableForDate rt db chatId date)))"
proof (intro conjI impI)
  assume "\<not> truthy startTime"
  then show "checkConflicts rt db chatId date startTime endTime = []"
    by (auto simp add: checkConflicts_def truthy_def split: option.splits)
next
  assume a: "isHHMM st \<and> timeOk endTime \<and> canonicalTimes db"
  then have st: "isHHMM st" and en: "timeOk endTime" and db: "canonicalTimes db" by simp_all
  let ?a = "minutesOf st" and ?b = "snd (intervalOf st endTime)"
  have iv: "intervalOf st endTime = (?a, ?b)" by (simp add: intervalOf_def)
  have ev: "filter (eventOverlaps (Some ?a) (Some ?b))
        (filter (\<lambda>e. e_chat_id e = chatId \<and> Some (e_date e) = date \<and> e_start_time e \<noteq> None)
           (events db))
      = filter (\<lambda>e. e_chat_id e = chatId \<and> Some (e_date e) = date
                    \<and> (case e_start_time e of
                          None \<Rightarrow> False
                        | Some s \<Rightarrow> overlap (?a, ?b) (intervalOf s (e_end_time e))))
          (events db)"
    unfolding filter_filter
  proof (rule filter_cong [OF refl])
    fix e assume "e \<in> set (events db)"
    with db have ok: "timeOk (e_start_time e)" "timeOk (e_end_time e)"
      by (auto simp add: canonicalTimes_def list_all_iff)
    show "((e_chat_id e = chatId \<and> Some (e_date e) = date \<and> e_start_time e \<noteq> None)
           \<and> eventOverlaps (Some ?a) (Some ?b) e)
        = (e_chat_id e = chatId \<and> Some (e_date e) = date
           \<and> (case e_start_time e of
                 None \<Rightarrow> False
               | Some s \<Rightarrow> overlap (?a, ?b) (intervalOf s (e_end_time e))))"
    proof (cases "e_start_time e")
      case None
      then show ?thesis by simp
    next
      case (Some s)
      with ok have "isHHMM s" by (simp add: timeOk_def)
      from eventOverlaps_canonical [OF Some this ok(2), of ?a ?b] Some show ?thesis by auto
    qed
  qed
  have sc: "filter (entryOverlaps (Some ?a) (Some ?b)) (getSchoolTimetableForDate rt db chatId date)
      = filter (\<lambda>r. overlap (?a, ?b) (intervalOf (t_start_time r) (Some (t_end_time r))))
          (getSchoolTimetableForDate rt db chatId date)"
  proof (rule filter_cong [OF refl])
    fix r assume "r \<in> set (getSchoolTimetableForDate rt db chatId date)"
    with set_getSchoolTimetableForDate have "r \<in> set (school_timetable db)" by blast
    with db have "isHHMM (t_start_time r)" "isHHMM (t_end_time r)"
      by (auto simp add: canonicalTimes_def list_all_iff)
    then show "entryOverlaps (Some ?a) (Some ?b) r
        = overlap (?a, ?b) (intervalOf (t_start_time r) (Some (t_end_time r)))"
      by (rule entryOverlaps_canonical)
  qed
  have "checkConflicts rt db chatId date (Some st) endTime
      = map conflictOfEvent
          (filter (eventOverlaps (Some ?a) (Some ?b))
            (filter (\<lambda>e. e_chat_id e = chatId \<and> Some (e_date e) = date \<and> e_start_time e \<noteq> None)
               (events db)))
        @ map (conflictOfEntry date)
            (filter (entryOverlaps (Some ?a) (Some ?b))
               (getSchoolTimetableForDate rt db chatId date))"
  proof (cases endTime)
    case None
    then show ?thesis
      using isHHMM_nonempty [OF st]
      by (simp add: checkConflicts_def Let_def timeToMinutes_HHMM [OF st] intervalOf_def)
  next
    case (Some t)
    with en have t: "isHHMM t" by (simp add: timeOk_def)
    show ?thesis
      using isHHMM_nonempty [OF st] isHHMM_nonempty [OF t] Some
      by (simp add: checkConflicts_def Let_def timeToMinutes_HHMM [OF st]
          timeToMinutes_HHMM [OF t] intervalOf_def)
  qed
  then show "checkConflicts rt db chatId date (Some st) endTime
        = map conflictOfEvent
            (filter (\<lambda>e. e_chat_id e = chatId \<and> Some (e_date e) = date
                          \<and> (case e_start_time e of
                                None \<Rightarrow> False
                              | Some s \<Rightarrow>
                                  overlap (intervalOf st endTime) (intervalOf s (e_end_time e))))
               (events db))
          @ map (conflictOfEntry date)
              (filter (\<lambda>r. overlap (intervalOf st endTime)
                               (intervalOf (t_start_time r) (Some (t_end_time r))))
                 (getSchoolTimetableForDate rt db chatId date))"
    unfolding ev sc iv [symmetric] .
qed

text \<open>
  Next to a class from 11:00 to 12:00 and an event from 14:00 to 15:00: a candidate
  10:00 to 11:00 conflicts with nothing, 11:30 to 11:45 with the class, 13:00 without
  an end (so until 14:00) with nothing, 13:01 without an end with the event, and a
  candidate without a start with nothing.
\<close>

theorem checkConflicts_overlap_witness:
  "checkConflicts exampleRuntime exampleDb 7 (Some ''2025-04-10'') (Some ''10:00'') (Some ''11:00'')
     = []
   \<and> checkConflicts exampleRuntime exampleDb 7 (Some ''2025-04-10'') (Some ''11:30'')
       (Some ''11:45'') = [conflictOfEntry (Some ''2025-04-10'') mathClass]
   \<and> checkConflicts exampleRuntime exampleDb 7 (Some ''2025-04-10'') (Some ''13:00'') None = []
   \<and> checkConflicts exampleRuntime exampleDb 7 (Some ''2025-04-10'') (Some ''13:01'') None
       = [conflictOfEvent eventA]
   \<and> checkConflicts exampleRuntime exampleDb 7 (Some ''2025-04-10'') None (Some ''15:00'') = []"
proof -
  have hyp: "isHHMM ''13:01'' \<and> timeOk None \<and> canonicalTimes exampleDb"
    by code_simp
  from checkConflicts_overlap [of None exampleRuntime exampleDb 7 "Some ''2025-04-10''" None
      "''13:01''"] hyp
  have "checkConflicts exampleRuntime exampleDb 7 (Some ''2025-04-10'') (Some ''13:01'') None
      = map conflictOfEvent
          (filter (\<lambda>e. e_chat_id e = 7 \<and> Some (e_date e) = Some ''2025-04-10''
                        \<and> (case e_start_time e of
                              None \<Rightarrow> False
                            | Some s \<Rightarrow>
                                overlap (intervalOf ''13:01'' None) (intervalOf s (e_end_time e))))
             (events exampleDb))
        @ map (conflictOfEntry (Some ''2025-04-10''))
            (filter (\<lambda>r. overlap (intervalOf ''13:01'' None)
                             (intervalOf (t_start_time r) (Some (t_end_time r))))
               (getSchoolTimetableForDate exampleRuntime exampleDb 7 (Some ''2025-04-10'')))"
    by blast
  also have "\<dots> = [conflictOfEvent eventA]"
    by code_simp
  finally have late: "checkConflicts exampleRuntime exampleDb 7 (Some ''2025-04-10'')
      (Some ''13:01'') None = [conflictOfEvent eventA]" .
  have touching: "checkConflicts exampleRuntime exampleDb 7 (Some ''2025-04-10'')
      (Some ''10:00'') (Some ''11:00'') = []"
    by code_simp
  have inside: "checkConflicts exampleRuntime exampleDb 7 (Some ''2025-04-10'') (Some ''11:30'')
      (Some ''11:45'') = [conflictOfEntry (Some ''2025-04-10'') mathClass]"
    by code_simp
  have hour: "checkConflicts exampleRuntime exampleDb 7 (Some ''2025-04-10'') (Some ''13:00'')
      None = []"
    by code_simp
  have absent: "checkConflicts exampleRuntime exampleDb 7 (Some ''2025-04-10'') None
      (Some ''15:00'') = []"
    by code_simp
  from touching inside hour late absent show ?thesis by blast
qed

section \<open>Properties of the time utilities\<close>

lemma isDigit_digitChar: "isDigit (digitChar n)"
proof -
  have "n mod 10 < length ''0123456789''" by simp
  then have "''0123456789'' ! (n mod 10) \<in> set ''0123456789''" by (rule nth_mem)
  then show ?thesis by (simp only: isDigit_def digitChar_def)
qed

lemma digitVal_nth:
  assumes "k < 10"
  shows "digitVal (''0123456789'' ! k) = k"
proof -
  have "\<forall>i \<in> set [0..<10]. digitVal (''0123456789'' ! i) = i"
    by code_simp
  moreover from assms have "k \<in> set [0..<10]" by simp
  ultimately show ?thesis by blast
qed

lemma digitVal_digitChar: "digitVal (digitChar n) = n mod 10"
  by (simp add: digitChar_def digitVal_nth)

lemma padStart2_String_nat:
  assumes "n < 100"
  shows "padStart2 (String_nat n) = [digitChar (n div 10), digitChar (n mod 10)]"
proof (cases "n < 10")
  case True
  then show ?thesis
    by (simp add: String_nat.simps [of n] padStart2_def digitChar_def)
next
  case False
  with assms have "n div 10 < 10" by simp
  then have "String_nat (n div 10) = [digitChar (n div 10)]"
    by (simp add: String_nat.simps [of "n div 10"])
  with False show ?thesis
    by (simp add: String_nat.simps [of n] padStart2_def)
qed

lemma hhmm_canonical:
  "h < 100 \<Longrightarrow> m < 100 \<Longrightarrow> hhmm (int h) (int m) = canonical h m"
  by (simp add: hhmm_def canonical_def padStart2_String_nat)












lemma guard_canonical:
  assumes "0 \<le> hh" and "hh \<le> 23" and "0 \<le> mm" and "mm \<le> 59"
  shows "\<exists>h m. h \<le> 23 \<and> m \<le> 59 \<and> hhmm hh mm = canonical h m"
proof -
  from assms have "nat hh \<le> 23" "nat mm \<le> 59" by simp_all
  moreover from assms have "hhmm hh mm = canonical (nat hh) (nat mm)"
    using hhmm_canonical [of "nat hh" "nat mm"] by simp
  ultimately show ?thesis by blast
qed

lemma normalizeTime_range:
  assumes "normalizeTime t = Some r"
  shows "\<exists>h m. h \<le> 23 \<and> m \<le> 59 \<and> r = canonical h m"
proof -
  from assms obtain hh mm where "r = hhmm hh mm" "0 \<le> hh" "hh \<le> 23" "0 \<le> mm" "mm \<le> 59"
    by (auto simp add: normalizeTime_def Let_def
        split: if_splits option.splits prod.splits)
  with guard_canonical [of hh mm] show ?thesis by auto
qed


















text \<open>
  What \<open>normalizeTime\<close> returns is of the form the conflict detector is proved
  for, and names the minute \<open>60 h + m\<close>.
\<close>

lemma isHHMM_canonical: "isHHMM (canonical h m)"
  by (simp add: isHHMM_def canonical_def isDigit_digitChar)

lemma minutesOf_canonical:
  assumes "h < 100" and "m < 100"
  shows "minutesOf (canonical h m) = int (h * 60 + m)"
proof -
  from assms have small: "(h div 10) mod 10 = h div 10" "(m div 10) mod 10 = m div 10"
    by simp_all
  have "(h div 10 * 10 + h mod 10) * 60 + (m div 10 * 10 + m mod 10) = h * 60 + m"
    by simp
  then show ?thesis
    unfolding minutesOf_def canonical_def list.case digitVal_digitChar mod_mod_trivial small
    by (simp only:)
qed

lemma normalizeTime_isHHMM: "normalizeTime t = Some r \<Longrightarrow> isHHMM r"
  using normalizeTime_range [of t r] isHHMM_canonical by auto

end
